theory Spec2Isabelle
  imports Complex_Main "HOL-Library.Sublist"
begin

section \<open>Data model of the highlight registry (RenderOverlay module)\<close>

text \<open>
  The module keeps two module-level variables, \<open>highlightsState\<close> and \<open>listeners\<close>.
  A listener is the \<open>setHighlights\<close> dispatcher of one mounted \<open>RenderOverlay\<close>; the code
  compares dispatchers by identity only, so a listener is modelled by a number.
  An \<open>Animated.Value\<close> is a heap object shared between the highlight record and the
  animation that drives it; it is modelled by its address in a store of values.
  JavaScript numbers are modelled as \<open>real\<close> for the rectangle (the registry only copies
  them) and as \<open>int\<close> for \<open>Date.now()\<close> readings (whole milliseconds).
\<close>

type_synonym listener = nat
type_synonym value_ref = nat

record layout =
  x_l :: real
  y_l :: real
  width_l :: real
  height_l :: real

record highlight =
  id_h :: string
  x_h :: real
  y_h :: real
  width_h :: real
  height_h :: real
  color_h :: string
  timestamp_h :: int
  opacity_h :: "value_ref option"

text \<open>
  A started \<open>Animated.timing(value, config).start(callback)\<close>. The callback of the source
  is the closure \<open>() => removeHighlight(id)\<close>; it is represented by the captured id.
\<close>

record animation =
  anim_value :: value_ref
  toValue :: real
  duration :: int
  useNativeDriver :: bool
  on_complete :: string

text \<open>
  The state of the module. \<open>delivered\<close> is the log of listener invocations, oldest first:
  the pair \<open>(l, hs)\<close> records the call \<open>l(hs)\<close>. \<open>animated_values\<close> is the store of
  \<open>Animated.Value\<close> objects indexed by address, \<open>animations\<close> the animations started so far.
\<close>

record registry =
  highlightsState :: "highlight list"
  listeners :: "listener list"
  delivered :: "(listener \<times> highlight list) list"
  animated_values :: "real list"
  animations :: "animation list"

definition HIGHLIGHT_DURATION :: int where
  "HIGHLIGHT_DURATION = 750"

definition initial_registry :: registry where
  "initial_registry =
     \<lparr>highlightsState = [], listeners = [], delivered = [],
      animated_values = [], animations = []\<rparr>"

section \<open>Operations of the registry\<close>

definition updateHighlights :: "highlight list \<Rightarrow> registry \<Rightarrow> registry" where
  "updateHighlights newHighlights s =
     s\<lparr>highlightsState := newHighlights,
       delivered := delivered s @ map (\<lambda>l. (l, newHighlights)) (listeners s)\<rparr>"

text \<open>The test of the pruning filter: \<open>now - h.timestamp < HIGHLIGHT_DURATION\<close>.\<close>

definition still_fresh :: "int \<Rightarrow> highlight \<Rightarrow> bool" where
  "still_fresh now h = (now - timestamp_h h < HIGHLIGHT_DURATION)"

definition newHighlight :: "string \<Rightarrow> layout \<Rightarrow> string \<Rightarrow> int \<Rightarrow> value_ref \<Rightarrow> highlight" where
  "newHighlight i lay color created opacity =
     \<lparr>id_h = i, x_h = x_l lay, y_h = y_l lay, width_h = width_l lay, height_h = height_l lay,
      color_h = color, timestamp_h = created, opacity_h = Some opacity\<rparr>"

definition fade_out :: "value_ref \<Rightarrow> string \<Rightarrow> animation" where
  "fade_out opacity i =
     \<lparr>anim_value = opacity, toValue = 0, duration = HIGHLIGHT_DURATION,
      useNativeDriver = True, on_complete = i\<rparr>"

text \<open>
  \<open>addHighlight\<close> reads the clock twice: \<open>created\<close> is the reading stored in the new record
  (\<open>timestamp: Date.now()\<close>), \<open>now\<close> the later reading used by the pruning filter
  (\<open>const now = Date.now()\<close>). Both are inputs of the model.
\<close>

definition addHighlight ::
  "string \<Rightarrow> layout \<Rightarrow> string \<Rightarrow> int \<Rightarrow> int \<Rightarrow> registry \<Rightarrow> registry" where
  "addHighlight i lay color created now s =
     (let opacity = length (animated_values s);
          s1 = s\<lparr>animated_values := animated_values s @ [1]\<rparr>;
          h = newHighlight i lay color created opacity;
          s2 = s1\<lparr>animations := animations s1 @ [fade_out opacity i]\<rparr>;
          updatedHighlights = filter (still_fresh now) (highlightsState s2) @ [h]
      in updateHighlights updatedHighlights s2)"

definition removeHighlight :: "string \<Rightarrow> registry \<Rightarrow> registry" where
  "removeHighlight i s =
     (let updatedHighlights = filter (\<lambda>h. id_h h \<noteq> i) (highlightsState s)
      in if length updatedHighlights \<noteq> length (highlightsState s)
         then updateHighlights updatedHighlights s
         else s)"

definition clearHighlights :: "registry \<Rightarrow> registry" where
  "clearHighlights s = updateHighlights [] s"

text \<open>The completion callback of a started animation: \<open>() => removeHighlight(id)\<close>.\<close>

definition animation_completed :: "animation \<Rightarrow> registry \<Rightarrow> registry" where
  "animation_completed a s = removeHighlight (on_complete a) s"

section \<open>The overlay component\<close>

text \<open>
  The effect of \<open>RenderOverlay\<close> run at mount pushes the dispatcher and calls it with the
  current collection; its cleanup filters the dispatcher out of \<open>listeners\<close>. (The cleanup
  also sets \<open>mounted.current\<close>, a ref that nothing reads.)
\<close>

definition RenderOverlay_subscribe :: "listener \<Rightarrow> registry \<Rightarrow> registry" where
  "RenderOverlay_subscribe setHighlights s =
     (let s1 = s\<lparr>listeners := listeners s @ [setHighlights]\<rparr>
      in s1\<lparr>delivered := delivered s1 @ [(setHighlights, highlightsState s1)]\<rparr>)"

definition RenderOverlay_unsubscribe :: "listener \<Rightarrow> registry \<Rightarrow> registry" where
  "RenderOverlay_unsubscribe setHighlights s =
     s\<lparr>listeners := filter (\<lambda>l. l \<noteq> setHighlights) (listeners s)\<rparr>"

text \<open>One \<open>Animated.View\<close> child of the overlay, with the style entries taken from the highlight.\<close>

record highlightBox =
  key_b :: string
  left_b :: real
  top_b :: real
  width_b :: real
  height_b :: real
  borderColor_b :: string
  opacity_b :: "value_ref option"

definition highlight_view :: "highlight \<Rightarrow> highlightBox" where
  "highlight_view h =
     \<lparr>key_b = id_h h, left_b = x_h h, top_b = y_h h, width_b = width_h h,
      height_b = height_h h, borderColor_b = color_h h, opacity_b = opacity_h h\<rparr>"

text \<open>The children of the overlay container, in document order: \<open>highlights.map(...)\<close>.\<close>

definition RenderOverlay_children :: "highlight list \<Rightarrow> highlightBox list" where
  "RenderOverlay_children highlights = map highlight_view highlights"

section \<open>Sequences of operations\<close>

text \<open>
  The calls that reach the module, in the order the single event-loop thread runs them.
  \<open>FadeCompleted i\<close> is the firing of a completion callback that captured the id \<open>i\<close>.
\<close>

datatype event =
    is_Add: Add string layout string int int
  | FadeCompleted string
  | Clear
  | Mount listener
  | Unmount listener

fun step :: "event \<Rightarrow> registry \<Rightarrow> registry" where
  "step (Add i lay color created now) s = addHighlight i lay color created now s"
| "step (FadeCompleted i) s = removeHighlight i s"
| "step Clear s = clearHighlights s"
| "step (Mount l) s = RenderOverlay_subscribe l s"
| "step (Unmount l) s = RenderOverlay_unsubscribe l s"

fun run :: "event list \<Rightarrow> registry \<Rightarrow> registry" where
  "run [] s = s"
| "run (e # es) s = run es (step e s)"

section \<open>The caller of addHighlight\<close>

text \<open>
  The callback that \<open>handleLayout\<close> passes to \<open>measure\<close> (index.tsx). It reads the two
  thresholds of \<open>currentOptions\<close>, both optional. The id is the template literal
  \<open>`${componentName}-${start}`\<close>; \<open>start_text\<close> is the text JavaScript prints for the number
  \<open>start\<close>, taken as an input.
\<close>

record ScanOptions =
  renderTimeThresholdWarn :: "real option"
  renderTimeThresholdError :: "real option"

definition nullish :: "'a option \<Rightarrow> 'a \<Rightarrow> 'a" where
  "nullish v d = (case v of None \<Rightarrow> d | Some w \<Rightarrow> w)"

definition render_color :: "ScanOptions \<Rightarrow> real \<Rightarrow> string" where
  "render_color currentOptions dur =
     (if dur > nullish (renderTimeThresholdError currentOptions) 50
        then ''rgba(255, 0, 0, 0.5)''
      else if dur > nullish (renderTimeThresholdWarn currentOptions) 16
        then ''rgba(255, 255, 0, 0.5)''
      else ''rgba(0, 255, 0, 0.5)'')"

definition handleLayout_measured ::
  "ScanOptions \<Rightarrow> string \<Rightarrow> string \<Rightarrow> real \<Rightarrow> real \<Rightarrow> real \<Rightarrow> real \<Rightarrow> real \<Rightarrow>
   int \<Rightarrow> int \<Rightarrow> registry \<Rightarrow> registry" where
  "handleLayout_measured currentOptions componentName start_text dur
       width height pageX pageY created now s =
     (if width \<le> 0 \<or> height \<le> 0 then s
      else
        let lay = \<lparr>x_l = pageX, y_l = pageY, width_l = width, height_l = height\<rparr>;
            color = render_color currentOptions dur;
            highlightId = componentName @ ''-'' @ start_text
        in addHighlight highlightId lay color created now s)"

section \<open>The add operation as the specification words it\<close>

text \<open>
  Steps 1 to 3 of the specification's add: one time \<open>now\<close>; every highlight with
  \<open>now - createdAt \<ge> DISPLAY_DURATION\<close> is discarded; the new highlight, with
  \<open>createdAt = now\<close>, is appended.
\<close>

definition spec_add ::
  "int \<Rightarrow> string \<Rightarrow> layout \<Rightarrow> string \<Rightarrow> value_ref \<Rightarrow> highlight list \<Rightarrow> highlight list" where
  "spec_add now i lay color opacity hs =
     filter (\<lambda>h. \<not> (now - timestamp_h h \<ge> 750)) hs @ [newHighlight i lay color now opacity]"

section \<open>Invariants and sample data\<close>

definition unique_ids :: "highlight list \<Rightarrow> bool" where
  "unique_ids hs = distinct (map id_h hs)"

text \<open>
  A sequence of calls in which every add brings an id that none of the highlights
  surviving its pruning carries.
\<close>

fun adds_fresh_ids :: "event list \<Rightarrow> registry \<Rightarrow> bool" where
  "adds_fresh_ids [] s = True"
| "adds_fresh_ids (Add i lay color created now # es) s =
     (i \<notin> set (map id_h (filter (still_fresh now) (highlightsState s))) \<and>
      adds_fresh_ids es (addHighlight i lay color created now s))"
| "adds_fresh_ids (e # es) s = adds_fresh_ids es (step e s)"

definition rect1 :: layout where
  "rect1 = \<lparr>x_l = 10, y_l = 20, width_l = 100, height_l = 40\<rparr>"

definition degenerate_rect :: layout where
  "degenerate_rect = \<lparr>x_l = 10, y_l = 20, width_l = 0, height_l = 40\<rparr>"

definition default_options :: ScanOptions where
  "default_options = \<lparr>renderTimeThresholdWarn = Some 16, renderTimeThresholdError = Some 50\<rparr>"

definition one_highlight :: registry where
  "one_highlight = addHighlight ''r1'' rect1 ''warn'' 0 0 (initial_registry\<lparr>listeners := [7]\<rparr>)"

definition two_with_same_id :: registry where
  "two_with_same_id =
     run [Add ''dup'' rect1 ''ok'' 0 0, Add ''dup'' rect1 ''warn'' 5 5] initial_registry"

definition three_added :: registry where
  "three_added =
     run [Add ''A'' rect1 ''ok'' 0 0, Add ''B'' rect1 ''warn'' 10 10, Add ''C'' rect1 ''error'' 20 20]
       initial_registry"

definition two_then_subscribe :: registry where
  "two_then_subscribe =
     run [Add ''r1'' rect1 ''warn'' 0 0, Add ''r2'' rect1 ''error'' 0 0, Mount 4] initial_registry"

definition aged_highlight :: registry where
  "aged_highlight = addHighlight ''A'' rect1 ''ok'' 251 251 (initial_registry\<lparr>listeners := [7]\<rparr>)"

definition registry_ids_unique :: "registry \<Rightarrow> bool" where
  "registry_ids_unique s =
     (unique_ids (highlightsState s) \<and> list_all (\<lambda>p. unique_ids (snd p)) (delivered s))"

section \<open>Basic facts\<close>

lemma updateHighlights_fields:
  "highlightsState (updateHighlights hs s) = hs"
  "listeners (updateHighlights hs s) = listeners s"
  "delivered (updateHighlights hs s) = delivered s @ map (\<lambda>l. (l, hs)) (listeners s)"
  "animated_values (updateHighlights hs s) = animated_values s"
  "animations (updateHighlights hs s) = animations s"
  by (simp_all add: updateHighlights_def)

lemma addHighlight_fields:
  "highlightsState (addHighlight i lay color created now s) =
     filter (still_fresh now) (highlightsState s) @
       [newHighlight i lay color created (length (animated_values s))]"
  "listeners (addHighlight i lay color created now s) = listeners s"
  "delivered (addHighlight i lay color created now s) =
     delivered s @
     map (\<lambda>l. (l, filter (still_fresh now) (highlightsState s) @
                    [newHighlight i lay color created (length (animated_values s))]))
       (listeners s)"
  "animated_values (addHighlight i lay color created now s) = animated_values s @ [1]"
  "animations (addHighlight i lay color created now s) =
     animations s @ [fade_out (length (animated_values s)) i]"
  by (simp_all add: addHighlight_def Let_def updateHighlights_def)

section \<open>clearHighlights\<close>

text \<open>
  C6. \<open>clearHighlights\<close> replaces the collection by the empty one and calls every
  subscribed listener with the empty collection, whatever the collection was before;
  in particular an already empty registry still notifies each listener.
\<close>

theorem clearHighlights_notifies_unconditionally:
  "highlightsState (clearHighlights s) = [] \<and>
   listeners (clearHighlights s) = listeners s \<and>
   delivered (clearHighlights s) = delivered s @ map (\<lambda>l. (l, [])) (listeners s) \<and>
   delivered (clearHighlights (initial_registry\<lparr>listeners := [l1, l2]\<rparr>)) = [(l1, []), (l2, [])]"
  by (simp add: clearHighlights_def updateHighlights_fields initial_registry_def)

section \<open>removeHighlight\<close>

lemma filter_same_length: "length (filter P xs) = length xs \<Longrightarrow> filter P xs = xs"
proof (induction xs)
  case Nil
  then show ?case by simp
next
  case (Cons x xs)
  show ?case
  proof (cases "P x")
    case True
    with Cons show ?thesis by simp
  next
    case False
    have "length (filter P xs) \<le> length xs" by (rule length_filter_le)
    with False Cons.prems show ?thesis by simp
  qed
qed

lemma removeHighlight_collection:
  "highlightsState (removeHighlight i s) = filter (\<lambda>h. id_h h \<noteq> i) (highlightsState s)"
  by (simp add: removeHighlight_def Let_def updateHighlights_fields filter_same_length)

lemma removeHighlight_absent:
  "\<forall>h \<in> set (highlightsState s). id_h h \<noteq> i \<Longrightarrow> removeHighlight i s = s"
  by (simp add: removeHighlight_def Let_def)

lemma removeHighlight_changes:
  assumes "removeHighlight i s \<noteq> s"
  shows "removeHighlight i s = updateHighlights (filter (\<lambda>h. id_h h \<noteq> i) (highlightsState s)) s"
    and "length (highlightsState (removeHighlight i s)) < length (highlightsState s)"
proof -
  let ?f = "filter (\<lambda>h. id_h h \<noteq> i) (highlightsState s)"
  from assms have ne: "length ?f \<noteq> length (highlightsState s)"
    by (auto simp add: removeHighlight_def Let_def split: if_splits)
  then show "removeHighlight i s = updateHighlights ?f s"
    by (simp add: removeHighlight_def Let_def)
  have "length ?f \<le> length (highlightsState s)" by (rule length_filter_le)
  with ne have "length ?f < length (highlightsState s)" by linarith
  then show "length (highlightsState (removeHighlight i s)) < length (highlightsState s)"
    by (simp add: removeHighlight_collection)
qed

lemma removeHighlight_twice: "removeHighlight i (removeHighlight i s) = removeHighlight i s"
  by (rule removeHighlight_absent) (simp add: removeHighlight_collection)

text \<open>
  C4. Removing an id that no active highlight carries (a second removal of the same id,
  or an id that was never added) returns the state as it was: the collection is the
  same and no listener is called. The model has no failing branch, as the source has no
  throw. A listener is called by a removal only when the collection changed, and then
  with the new collection.
\<close>

theorem removeHighlight_idempotent:
  "((\<forall>h \<in> set (highlightsState s). id_h h \<noteq> i) \<longrightarrow> removeHighlight i s = s) \<and>
   removeHighlight i (removeHighlight i s) = removeHighlight i s \<and>
   removeHighlight i initial_registry = initial_registry \<and>
   (highlightsState (removeHighlight i s) = highlightsState s \<longrightarrow>
      delivered (removeHighlight i s) = delivered s) \<and>
   (delivered (removeHighlight i s) \<noteq> delivered s \<longrightarrow>
      highlightsState (removeHighlight i s) \<noteq> highlightsState s \<and>
      delivered (removeHighlight i s) =
        delivered s @ map (\<lambda>l. (l, highlightsState (removeHighlight i s))) (listeners s))"
proof -
  have a: "(\<forall>h \<in> set (highlightsState s). id_h h \<noteq> i) \<longrightarrow> removeHighlight i s = s"
    by (simp add: removeHighlight_absent)
  have b: "removeHighlight i initial_registry = initial_registry"
    by (rule removeHighlight_absent) (simp add: initial_registry_def)
  have c: "highlightsState (removeHighlight i s) = highlightsState s \<longrightarrow>
             delivered (removeHighlight i s) = delivered s"
    using removeHighlight_changes(2) [of i s] by fastforce
  have d: "delivered (removeHighlight i s) \<noteq> delivered s \<longrightarrow>
      highlightsState (removeHighlight i s) \<noteq> highlightsState s \<and>
      delivered (removeHighlight i s) =
        delivered s @ map (\<lambda>l. (l, highlightsState (removeHighlight i s))) (listeners s)"
  proof
    assume "delivered (removeHighlight i s) \<noteq> delivered s"
    then have ne: "removeHighlight i s \<noteq> s" by auto
    from removeHighlight_changes(2) [OF ne]
    have 1: "highlightsState (removeHighlight i s) \<noteq> highlightsState s" by auto
    have 2: "delivered (removeHighlight i s) =
        delivered s @ map (\<lambda>l. (l, highlightsState (removeHighlight i s))) (listeners s)"
      by (simp add: removeHighlight_changes(1) [OF ne] updateHighlights_fields)
    from 1 2 show "highlightsState (removeHighlight i s) \<noteq> highlightsState s \<and>
      delivered (removeHighlight i s) =
        delivered s @ map (\<lambda>l. (l, highlightsState (removeHighlight i s))) (listeners s)"
      by (rule conjI)
  qed
  from a removeHighlight_twice b c d show ?thesis by blast
qed

theorem removeHighlight_idempotent_witness:
  "''never-added'' \<notin> set (map id_h (highlightsState one_highlight)) \<and>
   removeHighlight ''never-added'' one_highlight = one_highlight \<and>
   delivered (removeHighlight ''r1'' one_highlight) \<noteq> delivered one_highlight \<and>
   highlightsState (removeHighlight ''r1'' one_highlight) = [] \<and>
   removeHighlight ''r1'' (removeHighlight ''r1'' one_highlight) = removeHighlight ''r1'' one_highlight"
  using removeHighlight_idempotent [of one_highlight "''never-added''"]
        removeHighlight_idempotent [of one_highlight "''r1''"]
  by (simp add: one_highlight_def addHighlight_def Let_def initial_registry_def updateHighlights_def newHighlight_def fade_out_def rect1_def still_fresh_def HIGHLIGHT_DURATION_def removeHighlight_def)

text \<open>
  C10. \<open>removeHighlight\<close> leaves exactly the highlights whose id differs from the given
  one, so every active highlight carrying that id goes at once; the completion callback
  of a fade is that same removal. After two adds with one id, the first completion
  empties the collection.
\<close>

theorem removeHighlight_removes_every_match:
  "highlightsState (removeHighlight i s) = filter (\<lambda>h. id_h h \<noteq> i) (highlightsState s) \<and>
   (\<forall>h \<in> set (highlightsState (removeHighlight i s)). id_h h \<noteq> i) \<and>
   highlightsState (animation_completed (fade_out r i) s) =
     filter (\<lambda>h. id_h h \<noteq> i) (highlightsState s)"
  by (simp add: removeHighlight_collection animation_completed_def fade_out_def)

theorem removeHighlight_removes_every_match_witness:
  "map id_h (highlightsState two_with_same_id) = [''dup'', ''dup''] \<and>
   highlightsState (removeHighlight ''dup'' two_with_same_id) = [] \<and>
   highlightsState (animation_completed (hd (animations two_with_same_id)) two_with_same_id) = [] \<and>
   ''dup'' \<notin> set (map id_h (highlightsState (removeHighlight ''dup'' two_with_same_id)))"
  using removeHighlight_removes_every_match [of "''dup''" two_with_same_id 0]
  by (simp add: two_with_same_id_def addHighlight_def Let_def initial_registry_def
      updateHighlights_def newHighlight_def fade_out_def rect1_def still_fresh_def
      HIGHLIGHT_DURATION_def)

section \<open>Late completion callbacks\<close>

lemma removeHighlight_on_empty: "highlightsState s = [] \<Longrightarrow> removeHighlight i s = s"
  by (simp add: removeHighlight_absent)

lemma subscribe_collection:
  "highlightsState (RenderOverlay_subscribe l s) = highlightsState s"
  by (simp add: RenderOverlay_subscribe_def Let_def)

lemma unsubscribe_collection:
  "highlightsState (RenderOverlay_unsubscribe l s) = highlightsState s"
  by (simp add: RenderOverlay_unsubscribe_def)

lemma step_keeps_empty:
  "\<not> is_Add e \<Longrightarrow> highlightsState s = [] \<Longrightarrow> highlightsState (step e s) = []"
  by (cases e)
     (simp_all add: removeHighlight_on_empty clearHighlights_def updateHighlights_fields
        subscribe_collection unsubscribe_collection)

lemma run_keeps_empty:
  "\<forall>e \<in> set es. \<not> is_Add e \<Longrightarrow> highlightsState s = [] \<Longrightarrow> highlightsState (run es s) = []"
  by (induction es arbitrary: s) (simp_all add: step_keeps_empty)

lemma run_callbacks_on_empty:
  "highlightsState s = [] \<Longrightarrow> run (map FadeCompleted cbs) s = s"
  by (induction cbs) (simp_all add: removeHighlight_on_empty)

lemma run_callbacks_subseq:
  "subseq (highlightsState (run (map FadeCompleted cbs) s)) (highlightsState s)"
proof (induction cbs arbitrary: s)
  case Nil
  show ?case by simp
next
  case (Cons c cbs)
  have "subseq (highlightsState (run (map FadeCompleted cbs) (removeHighlight c s)))
          (highlightsState (removeHighlight c s))"
    by (rule Cons.IH)
  moreover have "subseq (highlightsState (removeHighlight c s)) (highlightsState s)"
    by (simp add: removeHighlight_collection)
  ultimately show ?case
    using subseq_order.trans by fastforce
qed

text \<open>
  C9. A completion callback is \<open>removeHighlight\<close> of the captured id and nothing else:
  whatever callbacks fire, in whatever order, the collection afterwards is a
  subsequence of the one before (nothing is inserted, nothing reordered), and a callback
  whose id no active highlight carries changes nothing at all. After \<open>clearHighlights\<close>,
  reached by any sequence of calls from any state, late callbacks leave the whole state
  as the clear left it, and the collection stays empty under every sequence of calls
  that contains no add.
\<close>

theorem late_callbacks_never_resurrect:
  "subseq (highlightsState (run (map FadeCompleted cbs) s)) (highlightsState s) \<and>
   ((\<forall>h \<in> set (highlightsState s). id_h h \<noteq> i) \<longrightarrow> step (FadeCompleted i) s = s) \<and>
   run (map FadeCompleted cbs) (clearHighlights (run evs s0)) = clearHighlights (run evs s0) \<and>
   ((\<forall>e \<in> set es. \<not> is_Add e) \<longrightarrow>
      highlightsState (run es (clearHighlights (run evs s0))) = [])"
proof -
  have empty: "highlightsState (clearHighlights (run evs s0)) = []"
    by (simp add: clearHighlights_def updateHighlights_fields)
  have a: "(\<forall>h \<in> set (highlightsState s). id_h h \<noteq> i) \<longrightarrow> step (FadeCompleted i) s = s"
    by (simp add: removeHighlight_absent)
  have b: "run (map FadeCompleted cbs) (clearHighlights (run evs s0)) = clearHighlights (run evs s0)"
    using empty by (rule run_callbacks_on_empty)
  have c: "(\<forall>e \<in> set es. \<not> is_Add e) \<longrightarrow>
      highlightsState (run es (clearHighlights (run evs s0))) = []"
    using empty by (simp add: run_keeps_empty)
  from run_callbacks_subseq a b c show ?thesis by blast
qed

theorem late_callbacks_never_resurrect_witness:
  "''A'' \<notin> set (map id_h (highlightsState (clearHighlights three_added))) \<and>
   step (FadeCompleted ''A'') (clearHighlights three_added) = clearHighlights three_added \<and>
   map is_Add [FadeCompleted ''A'', Mount 3, FadeCompleted ''B'', Unmount 3, FadeCompleted ''C''] =
     [False, False, False, False, False] \<and>
   map id_h (highlightsState three_added) = [''A'', ''B'', ''C''] \<and>
   highlightsState
     (run [FadeCompleted ''A'', Mount 3, FadeCompleted ''B'', Unmount 3, FadeCompleted ''C'']
        (clearHighlights three_added)) = [] \<and>
   run (map FadeCompleted [''A'', ''B'', ''C'']) (clearHighlights three_added) =
     clearHighlights three_added"
  using late_callbacks_never_resurrect
          [of "[''A'', ''B'', ''C'']" "clearHighlights three_added" "''A''"
              "[Add ''A'' rect1 ''ok'' 0 0, Add ''B'' rect1 ''warn'' 10 10, Add ''C'' rect1 ''error'' 20 20]"
              initial_registry
              "[FadeCompleted ''A'', Mount 3, FadeCompleted ''B'', Unmount 3, FadeCompleted ''C'']"]
  by (simp add: three_added_def addHighlight_def Let_def initial_registry_def
      updateHighlights_def newHighlight_def fade_out_def rect1_def still_fresh_def
      HIGHLIGHT_DURATION_def clearHighlights_def removeHighlight_def
      RenderOverlay_subscribe_def RenderOverlay_unsubscribe_def)

section \<open>Subscription\<close>

lemma unsubscribe_unknown:
  "l \<notin> set (listeners s) \<Longrightarrow> RenderOverlay_unsubscribe l s = s"
proof -
  assume "l \<notin> set (listeners s)"
  then have "filter (\<lambda>k. k \<noteq> l) (listeners s) = listeners s"
    by (auto simp add: filter_id_conv)
  then show ?thesis by (simp add: RenderOverlay_unsubscribe_def)
qed

lemma unsubscribe_listeners:
  "listeners (RenderOverlay_unsubscribe l s) = filter (\<lambda>k. k \<noteq> l) (listeners s)"
  by (simp add: RenderOverlay_unsubscribe_def)

lemma subscribe_fields:
  "listeners (RenderOverlay_subscribe l s) = listeners s @ [l]"
  "delivered (RenderOverlay_subscribe l s) = delivered s @ [(l, highlightsState s)]"
  by (simp_all add: RenderOverlay_subscribe_def Let_def)

lemma updateHighlights_reaches:
  "l \<in> set (listeners s) \<Longrightarrow>
   (l, hs) \<in> set (drop (length (delivered s)) (delivered (updateHighlights hs s)))"
  by (simp add: updateHighlights_fields)

lemma step_notifies_on_change:
  assumes sub: "l \<in> set (listeners s)"
    and changed: "highlightsState (step e s) \<noteq> highlightsState s"
  shows "(l, highlightsState (step e s)) \<in> set (drop (length (delivered s)) (delivered (step e s)))"
proof (cases e)
  case (Add i lay color created now)
  with sub show ?thesis by (simp add: addHighlight_fields)
next
  case (FadeCompleted i)
  with changed have ne: "removeHighlight i s \<noteq> s" by auto
  from sub have "(l, filter (\<lambda>h. id_h h \<noteq> i) (highlightsState s))
      \<in> set (drop (length (delivered s))
          (delivered (updateHighlights (filter (\<lambda>h. id_h h \<noteq> i) (highlightsState s)) s)))"
    by (rule updateHighlights_reaches)
  with FadeCompleted removeHighlight_changes(1) [OF ne] show ?thesis
    by (simp add: updateHighlights_fields)
next
  case Clear
  with sub show ?thesis by (simp add: clearHighlights_def updateHighlights_fields)
next
  case (Mount k)
  with changed show ?thesis by (simp add: subscribe_collection)
next
  case (Unmount k)
  with changed show ?thesis by (simp add: unsubscribe_collection)
qed

lemma removeHighlight_listeners: "listeners (removeHighlight i s) = listeners s"
  by (simp add: removeHighlight_def Let_def updateHighlights_fields)

lemma clearHighlights_listeners: "listeners (clearHighlights s) = listeners s"
  by (simp add: clearHighlights_def updateHighlights_fields)

lemma step_keeps_listener:
  "e \<noteq> Unmount l \<Longrightarrow> l \<in> set (listeners s) \<Longrightarrow> l \<in> set (listeners (step e s))"
  by (cases e)
     (simp_all add: addHighlight_fields removeHighlight_listeners clearHighlights_listeners
        subscribe_fields unsubscribe_listeners)

lemma run_keeps_listener:
  "Unmount l \<notin> set es \<Longrightarrow> l \<in> set (listeners s) \<Longrightarrow> l \<in> set (listeners (run es s))"
proof (induction es arbitrary: s)
  case Nil
  then show ?case by simp
next
  case (Cons e es)
  from Cons.prems have ne: "e \<noteq> Unmount l" and rest: "Unmount l \<notin> set es" by auto
  from step_keeps_listener [OF ne Cons.prems(2)]
  have "l \<in> set (listeners (step e s))" .
  from Cons.IH [OF rest this] show ?case by simp
qed

lemma step_keeps_unsubscribed:
  "e \<noteq> Mount l \<Longrightarrow> l \<notin> set (listeners s) \<Longrightarrow> l \<notin> set (listeners (step e s))"
  by (cases e)
     (simp_all add: addHighlight_fields removeHighlight_listeners clearHighlights_listeners
        subscribe_fields unsubscribe_listeners)

lemma updateHighlights_silent:
  "l \<notin> set (listeners s) \<Longrightarrow>
   \<exists>ds. delivered (updateHighlights hs s) = delivered s @ ds \<and> l \<notin> fst ` set ds"
  by (auto simp add: updateHighlights_fields)

lemma step_silent:
  assumes "e \<noteq> Mount l" and out: "l \<notin> set (listeners s)"
  shows "\<exists>ds. delivered (step e s) = delivered s @ ds \<and> l \<notin> fst ` set ds"
proof (cases e)
  case (Add i lay color created now)
  with out show ?thesis by (auto simp add: addHighlight_fields)
next
  case (FadeCompleted i)
  show ?thesis
  proof (cases "removeHighlight i s = s")
    case True
    with FadeCompleted show ?thesis by simp
  next
    case False
    from removeHighlight_changes(1) [OF False] FadeCompleted
      updateHighlights_silent [OF out] show ?thesis by simp
  qed
next
  case Clear
  with updateHighlights_silent [OF out] show ?thesis by (simp add: clearHighlights_def)
next
  case (Mount k)
  with assms show ?thesis by (auto simp add: subscribe_fields)
next
  case (Unmount k)
  then show ?thesis by (simp add: RenderOverlay_unsubscribe_def)
qed

lemma run_silent:
  "Mount l \<notin> set es \<Longrightarrow> l \<notin> set (listeners s) \<Longrightarrow>
   \<exists>ds. delivered (run es s) = delivered s @ ds \<and> l \<notin> fst ` set ds"
proof (induction es arbitrary: s)
  case Nil
  show ?case by simp
next
  case (Cons e es)
  from Cons.prems have ne: "e \<noteq> Mount l" and rest: "Mount l \<notin> set es" by auto
  from step_silent [OF ne Cons.prems(2)]
  obtain ds where ds: "delivered (step e s) = delivered s @ ds" "l \<notin> fst ` set ds" by blast
  from step_keeps_unsubscribed [OF ne Cons.prems(2)]
  have "l \<notin> set (listeners (step e s))" .
  from Cons.IH [OF rest this]
  obtain ds' where ds': "delivered (run es (step e s)) = delivered (step e s) @ ds'"
    "l \<notin> fst ` set ds'" by blast
  from ds ds' have "delivered (run (e # es) s) = delivered s @ (ds @ ds')"
    and "l \<notin> fst ` set (ds @ ds')" by auto
  then show ?case by blast
qed

lemma run_silent_drop:
  "Mount l \<notin> set es \<Longrightarrow> l \<notin> set (listeners s) \<Longrightarrow>
   l \<notin> fst ` set (drop (length (delivered s)) (delivered (run es s)))"
proof -
  assume "Mount l \<notin> set es" and "l \<notin> set (listeners s)"
  from run_silent [OF this]
  obtain ds where "delivered (run es s) = delivered s @ ds" "l \<notin> fst ` set ds" by blast
  then show ?thesis by simp
qed

text \<open>
  C7. Subscribing appends the listener and calls it at once with the current collection,
  which it leaves as it is; every later \<open>updateHighlights\<close> (the only way add, remove and
  clear publish a change) calls the listener with the new collection, after the
  listeners subscribed before it, and whichever call changes the collection afterwards
  hands the changed collection to the listener. Unsubscribing filters that listener out and keeps every
  other listener, in order; unsubscribing a listener that is not subscribed, so also
  unsubscribing twice, changes nothing, and an unsubscribed listener is not called by
  later changes. Add, remove and clear leave the list of listeners as it is. So after any
  sequence of calls that does not unmount the listener it is still subscribed, and the
  next call that changes the collection hands it the changed collection; after
  unsubscribing, no sequence of calls that does not mount it again calls it.
\<close>

theorem subscribe_unsubscribe_contract:
  "listeners (RenderOverlay_subscribe l s) = listeners s @ [l] \<and>
   highlightsState (RenderOverlay_subscribe l s) = highlightsState s \<and>
   delivered (RenderOverlay_subscribe l s) = delivered s @ [(l, highlightsState s)] \<and>
   delivered (updateHighlights hs (RenderOverlay_subscribe l s)) =
     delivered (RenderOverlay_subscribe l s) @ map (\<lambda>k. (k, hs)) (listeners s) @ [(l, hs)] \<and>
   (highlightsState (step e (RenderOverlay_subscribe l s)) \<noteq>
      highlightsState (RenderOverlay_subscribe l s) \<longrightarrow>
    (l, highlightsState (step e (RenderOverlay_subscribe l s))) \<in>
      set (drop (length (delivered (RenderOverlay_subscribe l s)))
             (delivered (step e (RenderOverlay_subscribe l s))))) \<and>
   listeners (RenderOverlay_unsubscribe l s) = filter (\<lambda>k. k \<noteq> l) (listeners s) \<and>
   (l \<notin> set (listeners s) \<longrightarrow>
      RenderOverlay_unsubscribe l s = s \<and>
      listeners (RenderOverlay_unsubscribe l (RenderOverlay_subscribe l s)) = listeners s) \<and>
   RenderOverlay_unsubscribe l (RenderOverlay_unsubscribe l s) = RenderOverlay_unsubscribe l s \<and>
   (k \<noteq> l \<longrightarrow>
      (k \<in> set (listeners (RenderOverlay_unsubscribe l s))) = (k \<in> set (listeners s))) \<and>
   l \<notin> fst ` set (drop (length (delivered s))
                     (delivered (updateHighlights hs (RenderOverlay_unsubscribe l s)))) \<and>
   listeners (addHighlight i lay color created now s) = listeners s \<and>
   listeners (removeHighlight i s) = listeners s \<and>
   listeners (clearHighlights s) = listeners s \<and>
   (Unmount l \<notin> set es \<longrightarrow>
      l \<in> set (listeners (run es (RenderOverlay_subscribe l s))) \<and>
      (highlightsState (step e (run es (RenderOverlay_subscribe l s))) \<noteq>
         highlightsState (run es (RenderOverlay_subscribe l s)) \<longrightarrow>
       (l, highlightsState (step e (run es (RenderOverlay_subscribe l s)))) \<in>
         set (drop (length (delivered (run es (RenderOverlay_subscribe l s))))
                (delivered (step e (run es (RenderOverlay_subscribe l s))))))) \<and>
   (Mount l \<notin> set es \<longrightarrow>
      l \<notin> fst ` set (drop (length (delivered s))
                        (delivered (run es (RenderOverlay_unsubscribe l s)))))"
proof -
  have twice: "RenderOverlay_unsubscribe l (RenderOverlay_unsubscribe l s) =
      RenderOverlay_unsubscribe l s"
    by (rule unsubscribe_unknown) (simp add: unsubscribe_listeners)
  have restored: "l \<notin> set (listeners s) \<longrightarrow>
      listeners (RenderOverlay_unsubscribe l (RenderOverlay_subscribe l s)) = listeners s"
    by (auto simp add: unsubscribe_listeners subscribe_fields filter_id_conv)
  have later: "delivered (updateHighlights hs (RenderOverlay_subscribe l s)) =
     delivered (RenderOverlay_subscribe l s) @ map (\<lambda>k. (k, hs)) (listeners s) @ [(l, hs)]"
    by (simp add: updateHighlights_fields subscribe_fields)
  have silent: "l \<notin> fst ` set (drop (length (delivered s))
                     (delivered (updateHighlights hs (RenderOverlay_unsubscribe l s))))"
    by (auto simp add: updateHighlights_fields RenderOverlay_unsubscribe_def)
  have others: "k \<noteq> l \<longrightarrow>
      (k \<in> set (listeners (RenderOverlay_unsubscribe l s))) = (k \<in> set (listeners s))"
    by (auto simp add: unsubscribe_listeners)
  have "l \<in> set (listeners (RenderOverlay_subscribe l s))"
    by (simp add: subscribe_fields)
  then have changes: "highlightsState (step e (RenderOverlay_subscribe l s)) \<noteq>
      highlightsState (RenderOverlay_subscribe l s) \<longrightarrow>
    (l, highlightsState (step e (RenderOverlay_subscribe l s))) \<in>
      set (drop (length (delivered (RenderOverlay_subscribe l s)))
             (delivered (step e (RenderOverlay_subscribe l s))))"
    by (simp add: step_notifies_on_change)
  have subscribed: "listeners (RenderOverlay_subscribe l s) = listeners s @ [l] \<and>
      highlightsState (RenderOverlay_subscribe l s) = highlightsState s \<and>
      delivered (RenderOverlay_subscribe l s) = delivered s @ [(l, highlightsState s)]"
    by (simp add: subscribe_fields subscribe_collection)
  have unsubscribed: "listeners (RenderOverlay_unsubscribe l s) =
      filter (\<lambda>k. k \<noteq> l) (listeners s) \<and>
      (l \<notin> set (listeners s) \<longrightarrow> RenderOverlay_unsubscribe l s = s)"
    by (simp add: unsubscribe_listeners unsubscribe_unknown)
  have kept: "listeners (addHighlight i lay color created now s) = listeners s \<and>
      listeners (removeHighlight i s) = listeners s \<and>
      listeners (clearHighlights s) = listeners s"
    by (simp add: addHighlight_fields removeHighlight_listeners clearHighlights_listeners)
  have persists: "Unmount l \<notin> set es \<longrightarrow>
      l \<in> set (listeners (run es (RenderOverlay_subscribe l s))) \<and>
      (highlightsState (step e (run es (RenderOverlay_subscribe l s))) \<noteq>
         highlightsState (run es (RenderOverlay_subscribe l s)) \<longrightarrow>
       (l, highlightsState (step e (run es (RenderOverlay_subscribe l s)))) \<in>
         set (drop (length (delivered (run es (RenderOverlay_subscribe l s))))
                (delivered (step e (run es (RenderOverlay_subscribe l s))))))"
  proof
    assume no_unmount: "Unmount l \<notin> set es"
    have "l \<in> set (listeners (RenderOverlay_subscribe l s))"
      by (simp add: subscribe_fields)
    with no_unmount have still: "l \<in> set (listeners (run es (RenderOverlay_subscribe l s)))"
      by (rule run_keeps_listener)
    then show "l \<in> set (listeners (run es (RenderOverlay_subscribe l s))) \<and>
      (highlightsState (step e (run es (RenderOverlay_subscribe l s))) \<noteq>
         highlightsState (run es (RenderOverlay_subscribe l s)) \<longrightarrow>
       (l, highlightsState (step e (run es (RenderOverlay_subscribe l s)))) \<in>
         set (drop (length (delivered (run es (RenderOverlay_subscribe l s))))
                (delivered (step e (run es (RenderOverlay_subscribe l s))))))"
      by (simp add: step_notifies_on_change)
  qed
  have gone: "Mount l \<notin> set es \<longrightarrow>
      l \<notin> fst ` set (drop (length (delivered s))
                        (delivered (run es (RenderOverlay_unsubscribe l s))))"
  proof
    assume no_mount: "Mount l \<notin> set es"
    have out: "l \<notin> set (listeners (RenderOverlay_unsubscribe l s))"
      by (simp add: unsubscribe_listeners)
    have same: "delivered (RenderOverlay_unsubscribe l s) = delivered s"
      by (simp add: RenderOverlay_unsubscribe_def)
    from run_silent_drop [OF no_mount out] same
    show "l \<notin> fst ` set (drop (length (delivered s))
                        (delivered (run es (RenderOverlay_unsubscribe l s))))"
      by simp
  qed
  from subscribed unsubscribed twice restored later changes silent others kept persists gone
  show ?thesis
    by blast
qed

theorem subscribe_unsubscribe_contract_witness:
  "map id_h (snd (last (delivered two_then_subscribe))) = [''r1'', ''r2''] \<and>
   fst (last (delivered two_then_subscribe)) = 4 \<and>
   (5::nat) \<noteq> 4 \<and> 4 \<notin> set (listeners (initial_registry\<lparr>listeners := [5]\<rparr>)) \<and>
   listeners (RenderOverlay_unsubscribe 4
     (RenderOverlay_subscribe 4 (initial_registry\<lparr>listeners := [5]\<rparr>))) = [5] \<and>
   RenderOverlay_unsubscribe 4 (initial_registry\<lparr>listeners := [5]\<rparr>) =
     initial_registry\<lparr>listeners := [5]\<rparr> \<and>
   highlightsState (step Clear two_then_subscribe) \<noteq> highlightsState two_then_subscribe \<and>
   last (delivered (step Clear two_then_subscribe)) = (4, []) \<and>
   Unmount 4 \<notin> set [Add ''r1'' rect1 ''warn'' 0 0, Add ''r2'' rect1 ''error'' 5 5,
                      FadeCompleted ''r1''] \<and>
   listeners (run [Add ''r1'' rect1 ''warn'' 0 0, Add ''r2'' rect1 ''error'' 5 5,
                   FadeCompleted ''r1''] (RenderOverlay_subscribe 4 initial_registry)) = [4] \<and>
   map (\<lambda>p. (fst p, map id_h (snd p)))
     (delivered (run [Add ''r1'' rect1 ''warn'' 0 0, Add ''r2'' rect1 ''error'' 5 5,
                      FadeCompleted ''r1'', Clear] (RenderOverlay_subscribe 4 initial_registry))) =
     [(4, []), (4, [''r1'']), (4, [''r1'', ''r2'']), (4, [''r2'']), (4, [])] \<and>
   Mount 4 \<notin> set [Add ''r1'' rect1 ''warn'' 0 0, Add ''r2'' rect1 ''error'' 5 5,
                    FadeCompleted ''r1''] \<and>
   delivered (run [Add ''r1'' rect1 ''warn'' 0 0, Add ''r2'' rect1 ''error'' 5 5,
                   FadeCompleted ''r1'']
                (RenderOverlay_unsubscribe 4 (RenderOverlay_subscribe 4 initial_registry))) =
     [(4, [])]"
  using subscribe_unsubscribe_contract
          [where l = 4 and s = "initial_registry\<lparr>listeners := [5]\<rparr>" and hs = "[]"
             and e = Clear and k = 5 and es = "[]"]
        subscribe_unsubscribe_contract
          [where l = 4
             and s = "run [Add ''r1'' rect1 ''warn'' 0 0, Add ''r2'' rect1 ''error'' 0 0]
                        initial_registry"
             and hs = "[]" and e = Clear and k = 5 and es = "[]"]
        subscribe_unsubscribe_contract
          [where l = 4 and s = initial_registry and hs = "[]" and e = Clear and k = 5
             and es = "[Add ''r1'' rect1 ''warn'' 0 0, Add ''r2'' rect1 ''error'' 5 5,
                        FadeCompleted ''r1'']"]
        subscribe_unsubscribe_contract
          [where l = 4 and s = "RenderOverlay_subscribe 4 initial_registry" and hs = "[]"
             and e = Clear and k = 5
             and es = "[Add ''r1'' rect1 ''warn'' 0 0, Add ''r2'' rect1 ''error'' 5 5,
                        FadeCompleted ''r1'']"]
  by (simp add: two_then_subscribe_def addHighlight_def Let_def initial_registry_def
      updateHighlights_def newHighlight_def fade_out_def rect1_def still_fresh_def
      HIGHLIGHT_DURATION_def RenderOverlay_subscribe_def RenderOverlay_unsubscribe_def
      clearHighlights_def removeHighlight_def)

section \<open>addHighlight\<close>

text \<open>
  C1, as the code has it. The new collection is the old one without the highlights whose
  age at the pruning reading \<open>now\<close> is at least 750 ms, followed by the new highlight; each
  subscribed listener is called once, in subscription order, with that collection. The
  timestamp of the new highlight is the earlier clock reading \<open>created\<close>; when the two
  readings agree the result is the specification's add at that time.
\<close>

theorem addHighlight_prunes_then_appends:
  "highlightsState (addHighlight i lay color created now s) =
     filter (\<lambda>h. \<not> (now - timestamp_h h \<ge> 750)) (highlightsState s) @
       [newHighlight i lay color created (length (animated_values s))] \<and>
   timestamp_h (last (highlightsState (addHighlight i lay color created now s))) = created \<and>
   listeners (addHighlight i lay color created now s) = listeners s \<and>
   delivered (addHighlight i lay color created now s) =
     delivered s @
     map (\<lambda>l. (l, highlightsState (addHighlight i lay color created now s))) (listeners s) \<and>
   (created = now \<longrightarrow>
      highlightsState (addHighlight i lay color created now s) =
        spec_add now i lay color (length (animated_values s)) (highlightsState s))"
proof -
  have fresh: "still_fresh now = (\<lambda>h. \<not> (now - timestamp_h h \<ge> 750))"
    by (auto simp add: still_fresh_def HIGHLIGHT_DURATION_def fun_eq_iff)
  show ?thesis
    by (simp add: addHighlight_fields fresh spec_add_def newHighlight_def)
qed

theorem addHighlight_prunes_then_appends_witness:
  "(800::int) = 800 \<and>
   map id_h (highlightsState (addHighlight ''A'' rect1 ''ok'' 0 0 initial_registry)) = [''A''] \<and>
   highlightsState
     (addHighlight ''B'' rect1 ''ok'' 800 800 (addHighlight ''A'' rect1 ''ok'' 0 0 initial_registry)) =
     [newHighlight ''B'' rect1 ''ok'' 800 1] \<and>
   spec_add 800 ''B'' rect1 ''ok'' 1
     (highlightsState (addHighlight ''A'' rect1 ''ok'' 0 0 initial_registry)) =
     [newHighlight ''B'' rect1 ''ok'' 800 1]"
  using addHighlight_prunes_then_appends
          [of "''B''" rect1 "''ok''" 800 800 "addHighlight ''A'' rect1 ''ok'' 0 0 initial_registry"]
  by (simp add: addHighlight_def Let_def initial_registry_def updateHighlights_def
      newHighlight_def fade_out_def rect1_def still_fresh_def HIGHLIGHT_DURATION_def spec_add_def)

text \<open>
  C1 as stated fails when the clock advances between the two readings. The active
  highlight has timestamp 251; the call reads 1000 for the record and 1001 for the
  pruning. The old highlight (age 750 at 1001, age 749 at 1000) is pruned and the new one
  carries 1000, so the result is the specification's add neither at 1000 nor at 1001.
\<close>

theorem addHighlight_two_clock_readings_counterexample:
  "map timestamp_h (highlightsState aged_highlight) = [251] \<and>
   highlightsState (addHighlight ''B'' rect1 ''ok'' 1000 1001 aged_highlight) =
     [newHighlight ''B'' rect1 ''ok'' 1000 1] \<and>
   highlightsState (addHighlight ''B'' rect1 ''ok'' 1000 1001 aged_highlight) \<noteq>
     spec_add 1000 ''B'' rect1 ''ok'' 1 (highlightsState aged_highlight) \<and>
   highlightsState (addHighlight ''B'' rect1 ''ok'' 1000 1001 aged_highlight) \<noteq>
     spec_add 1001 ''B'' rect1 ''ok'' 1 (highlightsState aged_highlight)"
  by (simp add: aged_highlight_def addHighlight_def Let_def initial_registry_def
      updateHighlights_def newHighlight_def fade_out_def rect1_def still_fresh_def
      HIGHLIGHT_DURATION_def spec_add_def)

text \<open>
  C8. The highlight that \<open>addHighlight\<close> creates holds a new \<open>Animated.Value\<close> whose
  content is 1 and which no earlier object shares; the animation started by the same call
  drives that very value to 0 with duration \<open>HIGHLIGHT_DURATION\<close>, which is 750, and its
  completion callback is \<open>removeHighlight\<close> of the highlight's id. (How the value moves
  between 1 and 0 during the 750 ms is the work of the host's \<open>Animated.timing\<close>.)
\<close>

theorem addHighlight_starts_fade:
  "opacity_h (last (highlightsState (addHighlight i lay color created now s))) =
     Some (length (animated_values s)) \<and>
   id_h (last (highlightsState (addHighlight i lay color created now s))) = i \<and>
   animated_values (addHighlight i lay color created now s)
     ! length (animated_values s) = 1 \<and>
   take (length (animated_values s)) (animated_values (addHighlight i lay color created now s)) =
     animated_values s \<and>
   animations (addHighlight i lay color created now s) =
     animations s @ [last (animations (addHighlight i lay color created now s))] \<and>
   anim_value (last (animations (addHighlight i lay color created now s))) =
     length (animated_values s) \<and>
   toValue (last (animations (addHighlight i lay color created now s))) = 0 \<and>
   duration (last (animations (addHighlight i lay color created now s))) = HIGHLIGHT_DURATION \<and>
   HIGHLIGHT_DURATION = 750 \<and>
   animation_completed (last (animations (addHighlight i lay color created now s))) s' =
     removeHighlight i s'"
  by (simp add: addHighlight_fields newHighlight_def fade_out_def animation_completed_def
      HIGHLIGHT_DURATION_def)

section \<open>Order of the collection\<close>

text \<open>
  C5. The new highlight is the last element after an add, and what precedes it is a
  subsequence of the old collection; a removal leaves a subsequence of the old collection
  as well, so the survivors keep their relative order. The overlay emits one child per
  highlight in the order of the collection, the box of a newly appended highlight last
  (the host paints later siblings over earlier ones). Added in the order A, B, C, the
  children are the boxes of A, B, C in that order.
\<close>

theorem insertion_order_preserved:
  "last (highlightsState (addHighlight i lay color created now s)) =
     newHighlight i lay color created (length (animated_values s)) \<and>
   subseq (butlast (highlightsState (addHighlight i lay color created now s)))
     (highlightsState s) \<and>
   subseq (highlightsState (removeHighlight j s)) (highlightsState s) \<and>
   map key_b (RenderOverlay_children hs) = map id_h hs \<and>
   RenderOverlay_children (hs @ [h]) = RenderOverlay_children hs @ [highlight_view h] \<and>
   map key_b (RenderOverlay_children (highlightsState three_added)) = [''A'', ''B'', ''C'']"
proof -
  have abc: "map key_b (RenderOverlay_children (highlightsState three_added)) =
      [''A'', ''B'', ''C'']"
    by (simp add: three_added_def addHighlight_fields RenderOverlay_children_def
        highlight_view_def newHighlight_def still_fresh_def HIGHLIGHT_DURATION_def
        initial_registry_def)
  have kids: "map key_b (RenderOverlay_children hs) = map id_h hs"
    by (simp add: RenderOverlay_children_def highlight_view_def)
  from abc kids show ?thesis
    by (simp add: addHighlight_fields removeHighlight_collection RenderOverlay_children_def)
qed

section \<open>Uniqueness of ids\<close>

lemma unique_ids_filter: "unique_ids hs \<Longrightarrow> unique_ids (filter P hs)"
  by (simp add: unique_ids_def distinct_map_filter)

lemma updateHighlights_unique:
  "registry_ids_unique s \<Longrightarrow> unique_ids hs \<Longrightarrow> registry_ids_unique (updateHighlights hs s)"
  by (auto simp add: registry_ids_unique_def updateHighlights_def list_all_iff)

lemma removeHighlight_unique:
  "registry_ids_unique s \<Longrightarrow> registry_ids_unique (removeHighlight i s)"
proof -
  assume inv: "registry_ids_unique s"
  then have "unique_ids (filter (\<lambda>h. id_h h \<noteq> i) (highlightsState s))"
    by (simp add: registry_ids_unique_def unique_ids_filter)
  with inv show ?thesis
    by (simp add: removeHighlight_def Let_def updateHighlights_unique)
qed

lemma addHighlight_unique:
  assumes inv: "registry_ids_unique s"
    and new: "i \<notin> set (map id_h (filter (still_fresh now) (highlightsState s)))"
  shows "registry_ids_unique (addHighlight i lay color created now s)"
proof -
  let ?kept = "filter (still_fresh now) (highlightsState s)"
  let ?h = "newHighlight i lay color created (length (animated_values s))"
  from inv have "unique_ids ?kept"
    by (simp add: registry_ids_unique_def unique_ids_filter)
  with new have u: "unique_ids (?kept @ [?h])"
    by (auto simp add: unique_ids_def newHighlight_def)
  from inv have "registry_ids_unique
      (s\<lparr>animated_values := animated_values s @ [1],
         animations := animations s @ [fade_out (length (animated_values s)) i]\<rparr>)"
    by (simp add: registry_ids_unique_def)
  from updateHighlights_unique [OF this u] show ?thesis
    by (simp add: addHighlight_def Let_def)
qed

lemma clearHighlights_unique:
  "registry_ids_unique s \<Longrightarrow> registry_ids_unique (clearHighlights s)"
  by (simp add: clearHighlights_def updateHighlights_unique unique_ids_def)

lemma subscribe_unique:
  "registry_ids_unique s \<Longrightarrow> registry_ids_unique (RenderOverlay_subscribe l s)"
  by (simp add: registry_ids_unique_def RenderOverlay_subscribe_def Let_def)

lemma unsubscribe_unique:
  "registry_ids_unique s \<Longrightarrow> registry_ids_unique (RenderOverlay_unsubscribe l s)"
  by (simp add: registry_ids_unique_def RenderOverlay_unsubscribe_def)

lemma run_unique:
  "adds_fresh_ids es s \<Longrightarrow> registry_ids_unique s \<Longrightarrow> registry_ids_unique (run es s)"
proof (induction es s rule: adds_fresh_ids.induct)
  case (1 s)
  then show ?case by simp
next
  case (2 i lay color created now es s)
  then show ?case by (simp add: addHighlight_unique)
qed (simp_all add: removeHighlight_unique clearHighlights_unique subscribe_unique
    unsubscribe_unique)

text \<open>
  C2, as the code has it. The registry itself never compares ids when adding, so
  uniqueness is the callers' contribution: in a sequence of calls where each add brings
  an id that no highlight surviving its pruning carries, the collection and every
  collection handed to a listener hold pairwise different ids, provided this held at the
  start. The id of a removed highlight may come back in a later add.
\<close>

theorem unique_ids_when_adds_are_fresh:
  "adds_fresh_ids es s \<Longrightarrow> unique_ids (highlightsState s) \<Longrightarrow>
   \<forall>p \<in> set (delivered s). unique_ids (snd p) \<Longrightarrow>
   unique_ids (highlightsState (run es s)) \<and>
   (\<forall>p \<in> set (delivered (run es s)). unique_ids (snd p))"
proof -
  assume fresh: "adds_fresh_ids es s"
    and u: "unique_ids (highlightsState s)"
    and d: "\<forall>p \<in> set (delivered s). unique_ids (snd p)"
  from u d have "registry_ids_unique s"
    by (simp add: registry_ids_unique_def list_all_iff)
  with fresh have "registry_ids_unique (run es s)" by (rule run_unique)
  then show ?thesis by (simp add: registry_ids_unique_def list_all_iff)
qed

theorem unique_ids_when_adds_are_fresh_witness:
  "adds_fresh_ids
     [Mount 1, Add ''a'' rect1 ''ok'' 0 0, Add ''b'' rect1 ''ok'' 10 10, FadeCompleted ''a'',
      Add ''a'' rect1 ''warn'' 20 20]
     initial_registry \<and>
   unique_ids (highlightsState initial_registry) \<and>
   delivered initial_registry = [] \<and>
   map id_h (highlightsState (run
     [Mount 1, Add ''a'' rect1 ''ok'' 0 0, Add ''b'' rect1 ''ok'' 10 10, FadeCompleted ''a'',
      Add ''a'' rect1 ''warn'' 20 20] initial_registry)) = [''b'', ''a''] \<and>
   unique_ids (highlightsState (run
     [Mount 1, Add ''a'' rect1 ''ok'' 0 0, Add ''b'' rect1 ''ok'' 10 10, FadeCompleted ''a'',
      Add ''a'' rect1 ''warn'' 20 20] initial_registry))"
proof -
  let ?es = "[Mount 1, Add ''a'' rect1 ''ok'' 0 0, Add ''b'' rect1 ''ok'' 10 10,
              FadeCompleted ''a'', Add ''a'' rect1 ''warn'' 20 20]"
  have fresh: "adds_fresh_ids ?es initial_registry"
    by (simp add: addHighlight_def Let_def initial_registry_def updateHighlights_def
        newHighlight_def fade_out_def rect1_def still_fresh_def HIGHLIGHT_DURATION_def
        removeHighlight_def RenderOverlay_subscribe_def)
  have u: "unique_ids (highlightsState initial_registry)"
    by (simp add: initial_registry_def unique_ids_def)
  have d: "\<forall>p \<in> set (delivered initial_registry). unique_ids (snd p)"
    by (simp add: initial_registry_def)
  have ids: "map id_h (highlightsState (run ?es initial_registry)) = [''b'', ''a'']"
    by (simp add: addHighlight_def Let_def initial_registry_def updateHighlights_def
        newHighlight_def fade_out_def rect1_def still_fresh_def HIGHLIGHT_DURATION_def
        removeHighlight_def RenderOverlay_subscribe_def)
  have none: "delivered initial_registry = []"
    by (simp add: initial_registry_def)
  from fresh u none ids unique_ids_when_adds_are_fresh [OF fresh u d] show ?thesis by blast
qed

text \<open>
  C2 as stated fails: two adds with one id inside the display window leave two active
  highlights with that id, and the mounted overlay receives that collection.
\<close>

theorem duplicate_id_counterexample:
  "map id_h (snd (last (delivered
      (run [Mount 1, Add ''dup'' rect1 ''ok'' 0 0, Add ''dup'' rect1 ''warn'' 5 5]
         initial_registry)))) = [''dup'', ''dup''] \<and>
   fst (last (delivered
      (run [Mount 1, Add ''dup'' rect1 ''ok'' 0 0, Add ''dup'' rect1 ''warn'' 5 5]
         initial_registry))) = 1 \<and>
   \<not> unique_ids (highlightsState
      (run [Mount 1, Add ''dup'' rect1 ''ok'' 0 0, Add ''dup'' rect1 ''warn'' 5 5]
         initial_registry))"
  by (simp add: addHighlight_def Let_def initial_registry_def updateHighlights_def
      newHighlight_def fade_out_def rect1_def still_fresh_def HIGHLIGHT_DURATION_def
      RenderOverlay_subscribe_def unique_ids_def)

section \<open>Rectangles without area\<close>

text \<open>
  C3, as the code has it. The check for a rectangle without area sits in the caller: when
  the measured width or height is not positive, the measure callback of \<open>handleLayout\<close>
  returns before it reaches \<open>addHighlight\<close>, and the state is what it was. With positive
  width and height it calls \<open>addHighlight\<close> with the measured rectangle. \<open>addHighlight\<close>
  itself never looks at the rectangle: its result always ends with the new highlight,
  carrying the rectangle it was given.
\<close>

theorem degenerate_measurement_dropped_by_caller:
  "(width \<le> 0 \<or> height \<le> 0 \<longrightarrow>
      handleLayout_measured opts name start_text dur width height pageX pageY created now s = s) \<and>
   (0 < width \<and> 0 < height \<longrightarrow>
      handleLayout_measured opts name start_text dur width height pageX pageY created now s =
        addHighlight (name @ ''-'' @ start_text)
          \<lparr>x_l = pageX, y_l = pageY, width_l = width, height_l = height\<rparr>
          (render_color opts dur) created now s) \<and>
   highlightsState (addHighlight i lay color created now s) \<noteq> [] \<and>
   width_h (last (highlightsState (addHighlight i lay color created now s))) = width_l lay \<and>
   height_h (last (highlightsState (addHighlight i lay color created now s))) = height_l lay"
  by (simp add: handleLayout_measured_def Let_def addHighlight_fields newHighlight_def)

theorem degenerate_measurement_dropped_by_caller_witness:
  "((0::real) \<le> 0 \<or> (40::real) \<le> 0) \<and>
   handleLayout_measured default_options ''Row'' ''12.5'' 3 0 40 10 20 0 0 one_highlight =
     one_highlight \<and>
   (0::real) < 100 \<and> (0::real) < 40 \<and>
   map id_h (highlightsState
     (handleLayout_measured default_options ''Row'' ''12.5'' 3 100 40 10 20 0 0 one_highlight)) =
     [''r1'', ''Row-12.5'']"
  using degenerate_measurement_dropped_by_caller
          [of 0 40 default_options "''Row''" "''12.5''" 3 10 20 0 0 one_highlight]
        degenerate_measurement_dropped_by_caller
          [of 100 40 default_options "''Row''" "''12.5''" 3 10 20 0 0 one_highlight]
  by (simp add: one_highlight_def addHighlight_def Let_def initial_registry_def
      updateHighlights_def newHighlight_def fade_out_def rect1_def still_fresh_def
      HIGHLIGHT_DURATION_def)

text \<open>
  C3 as stated fails: \<open>addHighlight\<close> called with a rectangle of width 0 creates the
  highlight and publishes it.
\<close>

theorem addHighlight_degenerate_rect_counterexample:
  "width_l degenerate_rect \<le> 0 \<and>
   highlightsState (addHighlight ''r1'' degenerate_rect ''warn'' 0 0 initial_registry) =
     [newHighlight ''r1'' degenerate_rect ''warn'' 0 0] \<and>
   highlightsState (addHighlight ''r1'' degenerate_rect ''warn'' 0 0 initial_registry) \<noteq>
     highlightsState initial_registry"
  by (simp add: addHighlight_fields degenerate_rect_def initial_registry_def)

end
